theory Spec2Isabelle
  imports Complex_Main "HOL-Library.AList"
begin

section \<open>The job store (app/core/job\_store.py)\<close>

text \<open>
  Python values of the store. Timestamps are the floats of \<^verbatim>\<open>time.time()\<close>, taken
  here as exact reals: only their order and the one subtraction \<^verbatim>\<open>now - ttl\<close> are used.
  A \<^verbatim>\<open>dict[str, Any]\<close> is an insertion-ordered association list.
\<close>

datatype JobStatus = QUEUED | RUNNING | DONE | FAILED

datatype pyval = PStr string | PDict "(string \<times> pyval) list"

type_synonym pydict = "(string \<times> pyval) list"

type_synonym ref = nat

record Job =
  job_id :: string
  trace_id :: string
  crew :: string
  status :: JobStatus
  result :: "pydict option"
  error :: "(string \<times> string) list option"
  created_at :: real
  updated_at :: real

text \<open>
  A \<^verbatim>\<open>Job\<close> is a mutable object and the store's dict holds references to such objects,
  so the state has an explicit object heap: \<open>heap\<close> lists the Job objects ever allocated
  (a reference is an index into it) and \<open>jobs\<close> is \<^verbatim>\<open>self._jobs\<close>, the dict from job id
  to reference, in insertion order. The lock makes each method one atomic step.
\<close>

record JobStore =
  heap :: "Job list"
  jobs :: "(string \<times> ref) list"
  ttl_seconds :: int

definition JobStore_init :: "int \<Rightarrow> JobStore" where
  "JobStore_init ttl = \<lparr>heap = [], jobs = [], ttl_seconds = ttl\<rparr>"

definition job_store :: JobStore where
  "job_store = JobStore_init 3600"

text \<open>Reading the fields of the object a reference points to.\<close>

definition deref :: "JobStore \<Rightarrow> ref \<Rightarrow> Job" where
  "deref s r = heap s ! r"

text \<open>
  \<^verbatim>\<open>create_job\<close>: \<open>jid\<close> is the value of \<^verbatim>\<open>str(uuid.uuid4())\<close>, \<open>tc\<close> and \<open>tu\<close> are the
  two clock readings of the dataclass's default factories. The new object is allocated
  at the end of the heap; its reference is stored under \<open>jid\<close> and returned.
\<close>

definition create_job ::
  "string \<Rightarrow> real \<Rightarrow> real \<Rightarrow> string \<Rightarrow> string \<Rightarrow> JobStore \<Rightarrow> ref \<times> JobStore" where
  "create_job jid tc tu trace crew_name s =
     (let job = \<lparr>job_id = jid, trace_id = trace, crew = crew_name, status = QUEUED,
                 result = None, error = None, created_at = tc, updated_at = tu\<rparr>;
          r = length (heap s)
      in (r, s\<lparr>heap := heap s @ [job], jobs := AList.update jid r (jobs s)\<rparr>))"

definition get_job :: "string \<Rightarrow> JobStore \<Rightarrow> ref option" where
  "get_job jid s = map_of (jobs s) jid"

text \<open>
  \<^verbatim>\<open>update_job\<close>: each of the three optional arguments is applied when it is not
  \<^verbatim>\<open>None\<close>; \<open>now\<close> is the clock reading stored in \<^verbatim>\<open>updated_at\<close>. The object is
  changed in place and its reference returned.
\<close>

definition update_job ::
  "string \<Rightarrow> JobStatus option \<Rightarrow> pydict option \<Rightarrow> (string \<times> string) list option \<Rightarrow> real
     \<Rightarrow> JobStore \<Rightarrow> ref option \<times> JobStore" where
  "update_job jid st res err now s =
     (case map_of (jobs s) jid of
        None \<Rightarrow> (None, s)
      | Some r \<Rightarrow>
          (let job = heap s ! r;
               job1 = (case st of None \<Rightarrow> job | Some v \<Rightarrow> job\<lparr>status := v\<rparr>);
               job2 = (case res of None \<Rightarrow> job1 | Some v \<Rightarrow> job1\<lparr>result := Some v\<rparr>);
               job3 = (case err of None \<Rightarrow> job2 | Some v \<Rightarrow> job2\<lparr>error := Some v\<rparr>);
               job4 = job3\<lparr>updated_at := now\<rparr>
           in (Some r, s\<lparr>heap := (heap s)[r := job4]\<rparr>)))"

text \<open>
  \<^verbatim>\<open>cleanup_old_jobs\<close>: \<open>now\<close> is the clock reading. The ids to delete are collected
  first, then deleted one by one (\<^verbatim>\<open>del\<close> cannot miss: the ids come from the dict).
\<close>

definition old_job_ids :: "real \<Rightarrow> JobStore \<Rightarrow> string list" where
  "old_job_ids cutoff s =
     map fst (filter (\<lambda>(jid, r). created_at (heap s ! r) < cutoff) (jobs s))"

definition cleanup_old_jobs :: "real \<Rightarrow> JobStore \<Rightarrow> nat \<times> JobStore" where
  "cleanup_old_jobs now s =
     (let cutoff = now - of_int (ttl_seconds s);
          ids = old_job_ids cutoff s
      in (length ids, s\<lparr>jobs := foldl (\<lambda>d jid. AList.delete jid d) (jobs s) ids\<rparr>))"

text \<open>
  What a dict of references to objects always satisfies: keys are unique, every
  reference points to an allocated object, and two ids never share an object (each
  \<^verbatim>\<open>create_job\<close> allocates a new one).
\<close>

definition store_ok :: "JobStore \<Rightarrow> bool" where
  "store_ok s \<longleftrightarrow> distinct (map fst (jobs s)) \<and> distinct (map snd (jobs s))
                  \<and> list_all (\<lambda>(jid, r). r < length (heap s)) (jobs s)"

text \<open>The record found under a job id: what a reader sees through \<^verbatim>\<open>get_job\<close>.\<close>

definition lookup :: "JobStore \<Rightarrow> string \<Rightarrow> Job option" where
  "lookup s jid = map_option (deref s) (get_job jid s)"


section \<open>Exceptions and the retry policy (app/crews/*.py)\<close>

text \<open>
  Exception classes, open to subclassing: the two built-in classes the retry decorator
  names, \<^verbatim>\<open>Exception\<close>, and any other class, given by its name and its direct base
  classes (so that a class defined by a library, such as
  \<^verbatim>\<open>http.client.RemoteDisconnected\<close>, is a value of the type, and two classes of the
  same name with different bases are different). An exception carries its class and its
  message; the retry library's \<^verbatim>\<open>RetryError\<close>, itself a direct subclass of
  \<^verbatim>\<open>Exception\<close>, carries the failure of the last attempt. The library's own
  \<^verbatim>\<open>TryAgain\<close> signal, which a work unit does not raise, is not a work-unit failure
  and is left out.
\<close>

datatype exc_class = TimeoutError | ConnectionError | Exception | Class string "exc_class list"

datatype exn = Exc exc_class string | RetryError exn

definition ValueError :: exc_class where
  "ValueError = Class ''ValueError'' [Exception]"

definition KeyError :: exc_class where
  "KeyError = Class ''KeyError'' [Class ''LookupError'' [Exception]]"

fun class_name :: "exc_class \<Rightarrow> string" where
  "class_name TimeoutError = ''TimeoutError''"
| "class_name ConnectionError = ''ConnectionError''"
| "class_name Exception = ''Exception''"
| "class_name (Class n bases) = n"

text \<open>\<^verbatim>\<open>type(e).__name__\<close>\<close>

fun type_name :: "exn \<Rightarrow> string" where
  "type_name (Exc c msg) = class_name c"
| "type_name (RetryError e) = ''RetryError''"

text \<open>
  \<^verbatim>\<open>isinstance(e, (TimeoutError, ConnectionError))\<close>: the class of \<open>e\<close> is one of the two
  or has one of them among its ancestors.
\<close>

fun subclass_of_transient :: "exc_class \<Rightarrow> bool" where
  "subclass_of_transient TimeoutError = True"
| "subclass_of_transient ConnectionError = True"
| "subclass_of_transient Exception = False"
| "subclass_of_transient (Class n bases) = (\<exists>b \<in> set bases. subclass_of_transient b)"

fun retry_if_exception_type :: "exn \<Rightarrow> bool" where
  "retry_if_exception_type (Exc c msg) = subclass_of_transient c"
| "retry_if_exception_type (RetryError e) = False"

text \<open>
  \<^verbatim>\<open>wait_exponential(multiplier, min, max)\<close> after attempt number \<open>n\<close>:
  \<^verbatim>\<open>max(max(0, min), min(multiplier * 2 ** (n - 1), max))\<close>.
\<close>

definition wait_exponential :: "nat \<Rightarrow> nat \<Rightarrow> nat \<Rightarrow> nat \<Rightarrow> nat" where
  "wait_exponential multiplier mn mx n = max (max 0 mn) (min (multiplier * 2 ^ (n - 1)) mx)"

text \<open>
  The loop of the \<^verbatim>\<open>@retry\<close> decorator as configured in the source:
  \<^verbatim>\<open>stop_after_attempt(max_attempt)\<close>, \<^verbatim>\<open>retry_if_exception_type\<close>, the default
  \<^verbatim>\<open>reraise=False\<close>. \<open>fn n\<close> is the outcome of the \<open>n\<close>-th invocation of the wrapped
  function (attempt numbers start at 1), \<open>sleeps\<close> the waits so far. A result, or a
  failure the predicate rejects, leaves the loop as it is; a retryable failure at the
  stop condition is raised wrapped in \<^verbatim>\<open>RetryError\<close>; otherwise the loop sleeps and
  attempts again. The value is the outcome, the number of invocations and the waits.
\<close>

function retrying ::
  "nat \<Rightarrow> (nat \<Rightarrow> nat) \<Rightarrow> (nat \<Rightarrow> exn + 'a) \<Rightarrow> nat \<Rightarrow> nat list \<Rightarrow> (exn + 'a) \<times> nat \<times> nat list" where
  "retrying max_attempt wait fn n sleeps =
     (case fn n of
        Inr v \<Rightarrow> (Inr v, n, sleeps)
      | Inl e \<Rightarrow>
          if \<not> retry_if_exception_type e then (Inl e, n, sleeps)
          else if n \<ge> max_attempt then (Inl (RetryError e), n, sleeps)
          else retrying max_attempt wait fn (Suc n) (sleeps @ [wait n]))"
  by pat_completeness auto
termination
  by (relation "measure (\<lambda>(m, w, f, n, sl). m - n)") auto

text \<open>
  \<^verbatim>\<open>_execute_crew\<close> (the same in all four crews): the wrapped body calls
  \<^verbatim>\<open>crew.kickoff()\<close> and returns \<^verbatim>\<open>result.raw\<close> when the result has that attribute,
  else \<^verbatim>\<open>str(result)\<close>. \<open>kickoff n\<close> is the outcome of the \<open>n\<close>-th call of
  \<^verbatim>\<open>crew.kickoff()\<close>.
\<close>

datatype crew_output = CrewOutput string | PlainOutput string

fun output_text :: "crew_output \<Rightarrow> string" where
  "output_text (CrewOutput raw) = raw"
| "output_text (PlainOutput s) = s"

definition execute_crew_body :: "exn + crew_output \<Rightarrow> exn + string" where
  "execute_crew_body out = (case out of Inl e \<Rightarrow> Inl e | Inr res \<Rightarrow> Inr (output_text res))"

definition execute_crew :: "(nat \<Rightarrow> exn + crew_output) \<Rightarrow> (exn + string) \<times> nat \<times> nat list" where
  "execute_crew kickoff =
     retrying 2 (wait_exponential 1 2 10) (\<lambda>n. execute_crew_body (kickoff n)) 1 []"


section \<open>The dispatcher and the reaper (app/main.py)\<close>

datatype crew_class = MarketingCrew | SupportCrew | AnalysisCrew | SocialMediaCrew

definition CREW_MAP :: "(string \<times> crew_class) list" where
  "CREW_MAP = [(''marketing'', MarketingCrew), (''support'', SupportCrew),
               (''analysis'', AnalysisCrew), (''social_media'', SocialMediaCrew)]"

text \<open>
  What the code does besides changing the store: log lines, the call of a crew's
  \<^verbatim>\<open>run\<close> (recorded so that one can tell whether the work unit was invoked), and
  \<^verbatim>\<open>time.sleep\<close>.
\<close>

datatype event = LogInfo string | LogError string | Invoked crew_class | Sleep nat

text \<open>
  The work unit: \<^verbatim>\<open>crew_class()\<close> followed by \<^verbatim>\<open>crew.run(payload, meta, trace_id)\<close>,
  which returns a dict or raises.
\<close>

type_synonym work_unit = "crew_class \<Rightarrow> pydict \<Rightarrow> pydict option \<Rightarrow> string \<Rightarrow> exn + pydict"

definition EXECUTION_ERROR :: "(string \<times> string) list" where
  "EXECUTION_ERROR =
     [(''code'', ''EXECUTION_ERROR''), (''message'', ''An error occurred during crew execution'')]"

text \<open>
  \<^verbatim>\<open>_run_crew_job\<close> in three parts, in the order of the source: the Running mark
  (lines 47-48), the lookup and call of the crew (lines 51-53), and the terminal
  update of either branch (lines 55-56 and 59-64). \<open>t1\<close> and \<open>t2\<close> are the clock
  readings of the two \<^verbatim>\<open>update_job\<close> calls. The return value of \<^verbatim>\<open>update_job\<close> is
  dropped each time, as in the source. An unknown crew name is the \<^verbatim>\<open>KeyError\<close> of
  \<^verbatim>\<open>CREW_MAP[crew_name]\<close>, raised inside the \<^verbatim>\<open>try\<close>.
\<close>

definition mark_running :: "string \<Rightarrow> string \<Rightarrow> real \<Rightarrow> JobStore \<Rightarrow> event list \<times> JobStore" where
  "mark_running jid crew_name now s =
     (let (r, s1) = update_job jid (Some RUNNING) None None now s
      in ([LogInfo (''Job '' @ jid @ '' started for crew: '' @ crew_name)], s1))"

definition invoke_crew ::
  "work_unit \<Rightarrow> string \<Rightarrow> pydict \<Rightarrow> pydict option \<Rightarrow> string \<Rightarrow> event list \<times> (exn + pydict)" where
  "invoke_crew run crew_name payload meta trace =
     (case map_of CREW_MAP crew_name of
        None \<Rightarrow> ([], Inl (Exc KeyError crew_name))
      | Some c \<Rightarrow> ([Invoked c], run c payload meta trace))"

definition record_outcome ::
  "string \<Rightarrow> exn + pydict \<Rightarrow> real \<Rightarrow> JobStore \<Rightarrow> event list \<times> JobStore" where
  "record_outcome jid outcome now s =
     (case outcome of
        Inr res \<Rightarrow>
          (let (r, s1) = update_job jid (Some DONE) (Some res) None now s
           in ([LogInfo (''Job '' @ jid @ '' completed successfully'')], s1))
      | Inl e \<Rightarrow>
          (let (r, s1) = update_job jid (Some FAILED) None (Some EXECUTION_ERROR) now s
           in ([LogError (''Job '' @ jid @ '' failed: '' @ type_name e)], s1)))"

definition run_crew_job ::
  "work_unit \<Rightarrow> string \<Rightarrow> string \<Rightarrow> pydict \<Rightarrow> pydict option \<Rightarrow> string \<Rightarrow> real \<Rightarrow> real
     \<Rightarrow> JobStore \<Rightarrow> event list \<times> JobStore" where
  "run_crew_job run jid crew_name payload meta trace t1 t2 s =
     (let (l1, s1) = mark_running jid crew_name t1 s;
          (l2, outcome) = invoke_crew run crew_name payload meta trace;
          (l3, s2) = record_outcome jid outcome t2 s1
      in (l1 @ l2 @ l3, s2))"

text \<open>Decimal digits of a number, for the f-string of the reaper's log line.\<close>

fun string_of_nat :: "nat \<Rightarrow> string" where
  "string_of_nat n =
     (if n < 10 then [''0123456789'' ! n]
      else string_of_nat (n div 10) @ [''0123456789'' ! (n mod 10)])"

text \<open>
  \<^verbatim>\<open>_cleanup_jobs_periodically\<close>: \<^verbatim>\<open>while True\<close> with no exit and no exception handler.
  The loop is run for \<open>n\<close> rounds: \<open>Inr s\<close> is the store of a loop that is still running
  after them, \<open>Inl e\<close> an exception that left the loop (and ended the thread). \<open>clock k\<close>
  is the clock reading of round \<open>k\<close>. The sweep is a parameter whose outcome may be an
  exception, so that the loop's treatment of a failing sweep can be stated; the
  source's loop is the instance with the store's \<^verbatim>\<open>cleanup_old_jobs\<close>.
\<close>

fun periodic_loop ::
  "(real \<Rightarrow> 's \<Rightarrow> exn + nat \<times> 's) \<Rightarrow> (nat \<Rightarrow> real) \<Rightarrow> nat \<Rightarrow> nat \<Rightarrow> event list \<Rightarrow> 's
     \<Rightarrow> event list \<times> (exn + 's)" where
  "periodic_loop sweep clock k 0 evs s = (evs, Inr s)"
| "periodic_loop sweep clock k (Suc n) evs s =
     (case sweep (clock k) s of
        Inl e \<Rightarrow> (evs @ [Sleep 300], Inl e)
      | Inr (removed, s') \<Rightarrow>
          periodic_loop sweep clock (Suc k) n
            (evs @ [Sleep 300] @
               (if removed > 0
                then [LogInfo (''Cleaned up '' @ string_of_nat removed @ '' old jobs'')]
                else []))
            s')"

definition cleanup_jobs_periodically ::
  "(nat \<Rightarrow> real) \<Rightarrow> nat \<Rightarrow> JobStore \<Rightarrow> event list \<times> (exn + JobStore)" where
  "cleanup_jobs_periodically clock n s =
     periodic_loop (\<lambda>now s. Inr (cleanup_old_jobs now s)) clock 0 n [] s"

text \<open>
  A field assignment by a caller through a reference it was handed, such as
  \<^verbatim>\<open>job.status = v\<close> on the value of \<^verbatim>\<open>get_job\<close>: the object is changed in place.
\<close>

definition assign_status :: "ref \<Rightarrow> JobStatus \<Rightarrow> JobStore \<Rightarrow> JobStore" where
  "assign_status r v s = s\<lparr>heap := (heap s)[r := (heap s ! r)\<lparr>status := v\<rparr>]\<rparr>"

section \<open>The running system\<close>

text \<open>
  The threads of the process interleave at the store's atomic operations. Per job the
  request handler creates the record and starts one thread running \<^verbatim>\<open>_run_crew_job\<close>
  (\<^verbatim>\<open>run_crew\<close>, lines 148-155); that thread takes two steps, the Running mark and the
  terminal update; the reaper sweeps at any time. \<open>threads\<close> maps every job id ever
  issued to the position of its thread; a submitted id is one \<^verbatim>\<open>uuid4\<close> never issued
  before.
\<close>

datatype pc = Spawned | Started | Finished

record system =
  store :: JobStore
  threads :: "string \<Rightarrow> pc option"

definition system_init :: system where
  "system_init = \<lparr>store = job_store, threads = (\<lambda>jid. None)\<rparr>"

inductive step :: "work_unit \<Rightarrow> system \<Rightarrow> system \<Rightarrow> bool" for run :: work_unit where
  submit:
    "threads \<sigma> jid = None \<Longrightarrow>
     step run \<sigma> \<lparr>store = snd (create_job jid tc tu trace crew_name (store \<sigma>)),
                  threads = (threads \<sigma>)(jid \<mapsto> Spawned)\<rparr>"
| start:
    "threads \<sigma> jid = Some Spawned \<Longrightarrow>
     step run \<sigma> \<lparr>store = snd (mark_running jid crew_name now (store \<sigma>)),
                  threads = (threads \<sigma>)(jid \<mapsto> Started)\<rparr>"
| finish:
    "threads \<sigma> jid = Some Started \<Longrightarrow>
     step run \<sigma> \<lparr>store = snd (record_outcome jid
                                  (snd (invoke_crew run crew_name payload meta trace)) now (store \<sigma>)),
                  threads = (threads \<sigma>)(jid \<mapsto> Finished)\<rparr>"
| sweep:
    "step run \<sigma> (\<sigma>\<lparr>store := snd (cleanup_old_jobs now (store \<sigma>))\<rparr>)"

inductive reachable :: "work_unit \<Rightarrow> system \<Rightarrow> bool" for run :: work_unit where
  init: "reachable run system_init"
| next_step: "reachable run \<sigma> \<Longrightarrow> step run \<sigma> \<sigma>' \<Longrightarrow> reachable run \<sigma>'"

text \<open>The order of the life cycle: a status stays, or moves one arrow forward.\<close>

fun forward :: "JobStatus \<Rightarrow> JobStatus \<Rightarrow> bool" where
  "forward QUEUED RUNNING = True"
| "forward RUNNING DONE = True"
| "forward RUNNING FAILED = True"
| "forward a b = (a = b)"

section \<open>The invariant of the running system\<close>

text \<open>
  What links a thread's position to its job record, and the invariant of all reachable
  states built from it: the store is well formed and every record in it belongs to an
  issued id whose thread position matches the record.
\<close>

fun job_matches :: "pc \<Rightarrow> Job \<Rightarrow> bool" where
  "job_matches Spawned j = (status j = QUEUED \<and> result j = None \<and> error j = None)"
| "job_matches Started j = (status j = RUNNING \<and> result j = None \<and> error j = None)"
| "job_matches Finished j =
     (status j = DONE \<and> result j \<noteq> None \<and> error j = None
      \<or> status j = FAILED \<and> result j = None \<and> error j = Some EXECUTION_ERROR)"

definition sys_inv :: "system \<Rightarrow> bool" where
  "sys_inv \<sigma> \<longleftrightarrow> store_ok (store \<sigma>)
     \<and> (\<forall>jid j. lookup (store \<sigma>) jid = Some j \<longrightarrow>
           (\<exists>p. threads \<sigma> jid = Some p \<and> job_matches p j))"

section \<open>Example inputs\<close>

text \<open>Concrete stores, work units, clocks and runs on which the theorems are evaluated.\<close>

definition ex_store1 :: JobStore where
  "ex_store1 = snd (create_job ''job-a'' 100 101 ''trace-a'' ''marketing'' job_store)"

definition ex_result :: pydict where
  "ex_result = [(''output'', PStr ''ok'')]"

definition ex_done :: JobStore where
  "ex_done = snd (update_job ''job-a'' (Some DONE) (Some ex_result) None 150 ex_store1)"

definition ex_store2 :: JobStore where
  "ex_store2 = snd (mark_running ''job-b'' ''support'' 4001
                 (snd (create_job ''job-b'' 4000 4000 ''trace-b'' ''support'' ex_store1)))"

definition ex_run_ok :: work_unit where
  "ex_run_ok c payload meta trace = Inr ex_result"

definition ex_run_timeout :: work_unit where
  "ex_run_timeout c payload meta trace = Inl (RetryError (Exc TimeoutError ''provider timed out''))"

definition ex_run_fatal :: work_unit where
  "ex_run_fatal c payload meta trace = Inl (Exc (Class ''AuthenticationError'' [Exception]) ''invalid key sk-123'')"

definition ex_sweep_fail :: "real \<Rightarrow> JobStore \<Rightarrow> exn + nat \<times> JobStore" where
  "ex_sweep_fail now s = Inl (Exc (Class ''RuntimeError'' [Exception]) ''sweep failed'')"

definition ex_clock :: "nat \<Rightarrow> real" where
  "ex_clock k = 7600 + 300 * real k"

definition ex_sys1 :: system where
  "ex_sys1 = \<lparr>store = snd (create_job ''job-a'' 100 101 ''trace-a'' ''marketing'' (store system_init)),
              threads = (threads system_init)(''job-a'' \<mapsto> Spawned)\<rparr>"

definition ex_sys2 :: system where
  "ex_sys2 = \<lparr>store = snd (mark_running ''job-a'' ''marketing'' 110 (store ex_sys1)),
              threads = (threads ex_sys1)(''job-a'' \<mapsto> Started)\<rparr>"

definition ex_sys3 :: system where
  "ex_sys3 = \<lparr>store = snd (record_outcome ''job-a''
                 (snd (invoke_crew ex_run_ok ''marketing'' [] None ''trace-a'')) 120 (store ex_sys2)),
              threads = (threads ex_sys2)(''job-a'' \<mapsto> Finished)\<rparr>"

definition ex_job_running :: Job where
  "ex_job_running = \<lparr>job_id = ''job-a'', trace_id = ''trace-a'', crew = ''marketing'',
       status = RUNNING, result = None, error = None, created_at = 100, updated_at = 110\<rparr>"

definition ex_job_done :: Job where
  "ex_job_done = \<lparr>job_id = ''job-a'', trace_id = ''trace-a'', crew = ''marketing'',
       status = DONE, result = Some ex_result, error = None, created_at = 100, updated_at = 120\<rparr>"

definition ex_kickoff_flaky :: "nat \<Rightarrow> exn + crew_output" where
  "ex_kickoff_flaky n = (if n = 1 then Inl (Exc TimeoutError ''timed out'') else Inr (CrewOutput ''ok''))"

definition ex_kickoff_down :: "nat \<Rightarrow> exn + crew_output" where
  "ex_kickoff_down n = Inl (Exc ConnectionError ''connection refused'')"

definition RemoteDisconnected :: exc_class where
  "RemoteDisconnected =
     Class ''RemoteDisconnected''
       [Class ''ConnectionResetError'' [ConnectionError],
        Class ''BadStatusLine'' [Class ''HTTPException'' [Exception]]]"

definition ex_kickoff_remote :: "nat \<Rightarrow> exn + crew_output" where
  "ex_kickoff_remote n =
     (if n = 1 then Inl (Exc RemoteDisconnected ''Remote end closed connection'')
      else Inr (CrewOutput ''ok''))"

definition ex_kickoff_remote_down :: "nat \<Rightarrow> exn + crew_output" where
  "ex_kickoff_remote_down n = Inl (Exc RemoteDisconnected ''Remote end closed connection'')"

definition ex_kickoff_invalid :: "nat \<Rightarrow> exn + crew_output" where
  "ex_kickoff_invalid n = Inl (Exc ValueError ''bad input'')"

section \<open>Properties of the store operations\<close>

declare retrying.simps [simp del]

lemma store_ok_init: "store_ok (JobStore_init ttl)"
  by (simp add: store_ok_def JobStore_init_def)

lemma map_snd_update:
  "set (map snd (AList.update k v al)) \<subseteq> insert v (set (map snd al))"
  by (induction al) auto

lemma distinct_snd_update:
  "distinct (map snd al) \<Longrightarrow> v \<notin> snd ` set al \<Longrightarrow> distinct (map snd (AList.update k v al))"
proof (induction al)
  case Nil
  then show ?case by simp
next
  case (Cons p al)
  have "set (map snd (AList.update k v al)) \<subseteq> insert v (set (map snd al))"
    by (rule map_snd_update)
  with Cons show ?case by (auto simp: image_iff)
qed

lemma list_all_update:
  "list_all (\<lambda>(k, r). P r) al \<Longrightarrow> P v \<Longrightarrow> list_all (\<lambda>(k, r). P r) (AList.update k' v al)"
  by (induction al) auto

lemma refs_bounded:
  "list_all (\<lambda>(jid, r). r < n) al \<Longrightarrow> map_of al k = Some r \<Longrightarrow> r < n"
  by (induction al) (auto split: if_splits)

lemma store_ok_ref: "store_ok s \<Longrightarrow> get_job jid s = Some r \<Longrightarrow> r < length (heap s)"
  unfolding store_ok_def get_job_def by (blast intro: refs_bounded)

lemma store_ok_create: 
  assumes "store_ok s"
  shows "store_ok (snd (create_job jid tc tu trace cn s))"
proof -
  have fresh: "length (heap s) \<notin> snd ` set (jobs s)"
    using assms by (auto simp: store_ok_def list_all_iff)
  have "list_all (\<lambda>(jid, r). r < Suc (length (heap s))) (jobs s)"
    using assms by (auto simp: store_ok_def list_all_iff)
  then have "list_all (\<lambda>(jid, r). r < Suc (length (heap s))) (AList.update jid (length (heap s)) (jobs s))"
    by (rule list_all_update) simp
  with assms fresh show ?thesis
    by (simp add: store_ok_def create_job_def Let_def distinct_update distinct_snd_update)
qed

lemma store_ok_update: "store_ok s \<Longrightarrow> store_ok (snd (update_job jid st res err now s))"
  by (simp add: store_ok_def update_job_def Let_def split: option.splits)

lemma foldl_delete:
  "foldl (\<lambda>d k. AList.delete k d) al ks = filter (\<lambda>p. fst p \<notin> set ks) al"
proof (induction ks arbitrary: al)
  case Nil
  then show ?case by simp
next
  case (Cons k ks)
  have "AList.delete k al = filter (\<lambda>p. fst p \<noteq> k) al"
    by (simp add: AList.delete_eq case_prod_unfold neq_commute)
  with Cons show ?case by (simp add: conj_commute)
qed

lemma filter_keys_distinct:
  assumes "distinct (map fst al)"
  shows "filter (\<lambda>p. fst p \<notin> fst ` {q \<in> set al. P q}) al = filter (\<lambda>p. \<not> P p) al"
proof (rule filter_cong[OF refl])
  fix p assume p: "p \<in> set al"
  have "fst p \<in> fst ` {q \<in> set al. P q} \<longleftrightarrow> P p"
  proof
    assume "fst p \<in> fst ` {q \<in> set al. P q}"
    then obtain q where q: "q \<in> set al" "P q" "fst q = fst p" by auto
    with assms p have "q = p" by (metis eq_key_imp_eq_value prod.collapse)
    with q show "P p" by simp
  next
    assume "P p" with p show "fst p \<in> fst ` {q \<in> set al. P q}" by auto
  qed
  then show "(fst p \<notin> fst ` {q \<in> set al. P q}) = (\<not> P p)" by simp
qed

lemma cleanup_jobs:
  "store_ok s \<Longrightarrow>
   jobs (snd (cleanup_old_jobs now s)) =
     filter (\<lambda>(jid, r). \<not> created_at (heap s ! r) < now - of_int (ttl_seconds s)) (jobs s)"
  by (simp add: cleanup_old_jobs_def Let_def old_job_ids_def foldl_delete store_ok_def
      filter_keys_distinct case_prod_unfold)

lemma cleanup_heap: "heap (snd (cleanup_old_jobs now s)) = heap s"
  by (simp add: cleanup_old_jobs_def Let_def)

lemma cleanup_ttl: "ttl_seconds (snd (cleanup_old_jobs now s)) = ttl_seconds s"
  by (simp add: cleanup_old_jobs_def Let_def)

lemma store_ok_cleanup: 
  assumes "store_ok s" shows "store_ok (snd (cleanup_old_jobs now s))"
  using assms unfolding store_ok_def cleanup_jobs[OF assms] cleanup_heap
  by (auto simp: distinct_map_filter list_all_iff)

lemma get_job_create_same:
  "get_job jid (snd (create_job jid tc tu trace cn s)) = Some (fst (create_job jid tc tu trace cn s))"
  by (simp add: get_job_def create_job_def Let_def update_conv')

lemma lookup_create:
  assumes "store_ok s"
  shows "lookup (snd (create_job jid tc tu trace cn s)) =
           (lookup s)(jid \<mapsto> \<lparr>job_id = jid, trace_id = trace, crew = cn, status = QUEUED,
                 result = None, error = None, created_at = tc, updated_at = tu\<rparr>)"
proof
  fix k
  show "lookup (snd (create_job jid tc tu trace cn s)) k =
        ((lookup s)(jid \<mapsto> \<lparr>job_id = jid, trace_id = trace, crew = cn, status = QUEUED,
                 result = None, error = None, created_at = tc, updated_at = tu\<rparr>)) k"
  proof (cases "k = jid")
    case True
    then show ?thesis
      by (simp add: lookup_def get_job_def create_job_def Let_def update_conv' deref_def)
  next
    case False
    show ?thesis
    proof (cases "get_job k s")
      case None
      with False show ?thesis
        by (simp add: lookup_def get_job_def create_job_def Let_def update_conv')
    next
      case (Some r)
      then have "r < length (heap s)" using assms by (rule store_ok_ref[rotated])
      with False Some show ?thesis
        by (simp add: lookup_def get_job_def create_job_def Let_def update_conv' deref_def nth_append)
    qed
  qed
qed

lemma distinct_snd_inj:
  "distinct (map snd al) \<Longrightarrow> map_of al k = Some r \<Longrightarrow> map_of al k' = Some r \<Longrightarrow> k = k'"
proof (induction al)
  case Nil
  then show ?case by simp
next
  case (Cons p al)
  then show ?case
    by (auto split: if_splits dest!: map_of_SomeD simp: image_iff)
qed

lemma store_ok_inj:
  "store_ok s \<Longrightarrow> get_job k s = Some r \<Longrightarrow> get_job k' s = Some r \<Longrightarrow> k = k'"
  unfolding store_ok_def get_job_def by (blast intro: distinct_snd_inj)

lemma update_job_unknown:
  "get_job jid s = None \<Longrightarrow> update_job jid st res err now s = (None, s)"
  by (simp add: update_job_def get_job_def)

lemma update_job_known:
  "get_job jid s = Some r \<Longrightarrow>
   update_job jid st res err now s =
     (Some r, s\<lparr>heap := (heap s)[r := (heap s ! r)\<lparr>
        status := (case st of None \<Rightarrow> status (heap s ! r) | Some v \<Rightarrow> v),
        result := (case res of None \<Rightarrow> result (heap s ! r) | Some v \<Rightarrow> Some v),
        error := (case err of None \<Rightarrow> error (heap s ! r) | Some v \<Rightarrow> Some v),
        updated_at := now\<rparr>]\<rparr>)"
  by (simp add: update_job_def get_job_def Let_def split: option.splits)

lemma get_job_heap_upd: "get_job k (s\<lparr>heap := h\<rparr>) = get_job k s"
  by (simp add: get_job_def)

lemma get_job_update: "get_job k (snd (update_job jid st res err now s)) = get_job k s"
  by (simp add: update_job_def get_job_def Let_def split: option.splits)

lemma lookup_update_other:
  assumes "store_ok s" "k \<noteq> jid"
  shows "lookup (snd (update_job jid st res err now s)) k = lookup s k"
proof (cases "get_job jid s")
  case None
  then show ?thesis by (simp add: update_job_unknown)
next
  case (Some r)
  show ?thesis
  proof (cases "get_job k s")
    case None
    then show ?thesis by (simp add: lookup_def get_job_update)
  next
    case (Some r')
    with \<open>get_job jid s = Some r\<close> assms have "r' \<noteq> r"
      using store_ok_inj by blast
    with Some \<open>get_job jid s = Some r\<close> show ?thesis
      by (simp add: lookup_def get_job_heap_upd deref_def update_job_known)
  qed
qed

lemma lookup_update_same:
  assumes "store_ok s" "lookup s jid = Some j"
  shows "lookup (snd (update_job jid st res err now s)) jid =
     Some (j\<lparr>status := (case st of None \<Rightarrow> status j | Some v \<Rightarrow> v),
        result := (case res of None \<Rightarrow> result j | Some v \<Rightarrow> Some v),
        error := (case err of None \<Rightarrow> error j | Some v \<Rightarrow> Some v),
        updated_at := now\<rparr>)"
proof -
  from assms(2) obtain r where r: "get_job jid s = Some r" and j: "heap s ! r = j"
    by (auto simp: lookup_def deref_def)
  from assms(1) r have "r < length (heap s)" by (rule store_ok_ref)
  with r j show ?thesis
    by (simp add: lookup_def get_job_heap_upd deref_def update_job_known split: option.splits)
qed

lemma lookup_update_none:
  "lookup s jid = None \<Longrightarrow> lookup (snd (update_job jid st res err now s)) k = lookup s k"
  by (simp add: lookup_def update_job_unknown)

lemma map_of_filter_distinct:
  "distinct (map fst al) \<Longrightarrow>
   map_of (filter P al) k = (case map_of al k of None \<Rightarrow> None | Some v \<Rightarrow> if P (k, v) then Some v else None)"
proof (induction al)
  case Nil
  then show ?case by simp
next
  case (Cons p al)
  then show ?case
    by (cases p) (auto split: option.splits dest!: map_of_SomeD simp: image_iff)
qed

lemma lookup_cleanup:
  assumes "store_ok s"
  shows "lookup (snd (cleanup_old_jobs now s)) k =
     (case lookup s k of None \<Rightarrow> None
      | Some j \<Rightarrow> if created_at j < now - of_int (ttl_seconds s) then None else Some j)"
proof -
  have d: "distinct (map fst (jobs s))" using assms by (simp add: store_ok_def)
  show ?thesis
    by (simp add: lookup_def get_job_def cleanup_jobs[OF assms] map_of_filter_distinct[OF d]
        deref_def cleanup_heap split: option.splits)
qed

lemma execute_crew_unfold:
  "execute_crew kickoff =
     (case kickoff 1 of
        Inr v \<Rightarrow> (Inr (output_text v), 1, [])
      | Inl e \<Rightarrow>
          if \<not> retry_if_exception_type e then (Inl e, 1, [])
          else (case kickoff 2 of
                  Inr v \<Rightarrow> (Inr (output_text v), 2, [2])
                | Inl e' \<Rightarrow> if \<not> retry_if_exception_type e' then (Inl e', 2, [2])
                            else (Inl (RetryError e'), 2, [2])))"
  unfolding execute_crew_def
  apply (subst retrying.simps)
  apply (subst retrying.simps)
  apply (simp add: execute_crew_body_def wait_exponential_def numeral_2_eq_2 split: sum.splits)
  done

lemma ValueError_not_transient: "\<not> retry_if_exception_type (Exc ValueError msg)"
  by (simp add: ValueError_def)

lemma RemoteDisconnected_transient: "retry_if_exception_type (Exc RemoteDisconnected msg)"
  by (simp add: RemoteDisconnected_def)

lemma ex_store1_eq:
  "ex_store1 = \<lparr>heap = [\<lparr>job_id = ''job-a'', trace_id = ''trace-a'', crew = ''marketing'',
       status = QUEUED, result = None, error = None, created_at = 100, updated_at = 101\<rparr>],
     jobs = [(''job-a'', 0)], ttl_seconds = 3600\<rparr>"
  by (simp add: ex_store1_def create_job_def job_store_def JobStore_init_def)

lemma ex_done_eq:
  "ex_done = \<lparr>heap = [\<lparr>job_id = ''job-a'', trace_id = ''trace-a'', crew = ''marketing'',
       status = DONE, result = Some ex_result, error = None, created_at = 100, updated_at = 150\<rparr>],
     jobs = [(''job-a'', 0)], ttl_seconds = 3600\<rparr>"
  by (simp add: ex_done_def ex_store1_eq update_job_def)

lemma ex_store2_eq:
  "ex_store2 = \<lparr>heap = [\<lparr>job_id = ''job-a'', trace_id = ''trace-a'', crew = ''marketing'',
       status = QUEUED, result = None, error = None, created_at = 100, updated_at = 101\<rparr>,
       \<lparr>job_id = ''job-b'', trace_id = ''trace-b'', crew = ''support'',
       status = RUNNING, result = None, error = None, created_at = 4000, updated_at = 4001\<rparr>],
     jobs = [(''job-a'', 0), (''job-b'', 1)], ttl_seconds = 3600\<rparr>"
  by (simp add: ex_store2_def ex_store1_eq create_job_def mark_running_def update_job_def)

lemma ex_store1_ok: "store_ok ex_store1"
  by (simp add: ex_store1_eq store_ok_def)

lemma ex_done_ok: "store_ok ex_done"
  by (simp add: ex_done_eq store_ok_def)

lemma ex_store2_ok: "store_ok ex_store2"
  by (simp add: ex_store2_eq store_ok_def)

lemma cleanup_fst:
  "fst (cleanup_old_jobs now s) =
     length (filter (\<lambda>(jid, r). created_at (heap s ! r) < now - of_int (ttl_seconds s)) (jobs s))"
  by (simp add: cleanup_old_jobs_def Let_def old_job_ids_def)

lemma cleanup_not_later_sweep:
  assumes "store_ok s" and "now2 \<le> now"
  shows "cleanup_old_jobs now2 (snd (cleanup_old_jobs now s)) = (0, snd (cleanup_old_jobs now s))"
proof -
  let ?s' = "snd (cleanup_old_jobs now s)"
  have "old_job_ids (now2 - of_int (ttl_seconds ?s')) ?s' = []"
    using assms(2)
    by (auto simp: old_job_ids_def cleanup_jobs[OF assms(1)] cleanup_heap cleanup_ttl
        filter_empty_conv)
  then show ?thesis
    by (simp add: cleanup_old_jobs_def[of now2 ?s'] Let_def)
qed

text \<open>
  A second sweep at a later clock reading \<open>now2\<close> removes the entries that have aged
  past the ttl between the two readings, and no others.
\<close>

lemma cleanup_later_sweep:
  assumes "store_ok s"
  shows "fst (cleanup_old_jobs now2 (snd (cleanup_old_jobs now s))) =
     length (filter (\<lambda>(jid, r). \<not> created_at (heap s ! r) < now - of_int (ttl_seconds s)
                               \<and> created_at (heap s ! r) < now2 - of_int (ttl_seconds s)) (jobs s))"
  by (simp add: cleanup_fst cleanup_jobs[OF assms] cleanup_heap cleanup_ttl case_prod_unfold)

lemma mark_running_unknown: "get_job jid s = None \<Longrightarrow> snd (mark_running jid cn now s) = s"
  by (simp add: mark_running_def update_job_unknown)

lemma record_outcome_unknown: "get_job jid s = None \<Longrightarrow> snd (record_outcome jid out now s) = s"
  by (simp add: record_outcome_def update_job_unknown split: sum.splits)

lemma periodic_loop_3:
  "periodic_loop sweep clock k 3 evs s = periodic_loop sweep clock k (Suc (Suc (Suc 0))) evs s"
  by (simp only: numeral_3_eq_3)

lemma reaper_runs:
  "\<exists>s'. snd (periodic_loop (\<lambda>now s. Inr (cleanup_old_jobs now s)) clock k n evs s) = Inr s'"
proof (induction n arbitrary: k evs s)
  case 0
  show ?case by simp
next
  case (Suc n)
  obtain removed s1 where c: "cleanup_old_jobs (clock k) s = (removed, s1)"
    by (cases "cleanup_old_jobs (clock k) s")
  show ?case using Suc.IH[of "Suc k" _ s1] by (simp add: c)
qed

lemma reaper_sleeps:
  "count_list (fst (periodic_loop (\<lambda>now s. Inr (cleanup_old_jobs now s)) clock k n evs s)) (Sleep 300)
     = count_list evs (Sleep 300) + n"
proof (induction n arbitrary: k evs s)
  case 0
  show ?case by simp
next
  case (Suc n)
  obtain removed s1 where c: "cleanup_old_jobs (clock k) s = (removed, s1)"
    by (cases "cleanup_old_jobs (clock k) s")
  show ?case using Suc.IH[of "Suc k" _ s1] by (simp add: c)
qed

lemma string_of_nat_1: "string_of_nat (Suc 0) = ''1''"
  by simp

lemma ex_round1:
  "cleanup_old_jobs (ex_clock 0) ex_store2 = (Suc 0, ex_store2\<lparr>jobs := [(''job-b'', Suc 0)]\<rparr>)"
  by (simp add: ex_clock_def ex_store2_eq cleanup_old_jobs_def old_job_ids_def)

lemma ex_round2:
  "cleanup_old_jobs (ex_clock (Suc 0)) (ex_store2\<lparr>jobs := [(''job-b'', Suc 0)]\<rparr>) = (Suc 0, ex_store2\<lparr>jobs := []\<rparr>)"
  by (simp add: ex_clock_def ex_store2_eq cleanup_old_jobs_def old_job_ids_def)

lemma ex_reaper:
  "cleanup_jobs_periodically ex_clock (Suc (Suc 0)) ex_store2 =
      ([Sleep 300, LogInfo ''Cleaned up 1 old jobs'', Sleep 300, LogInfo ''Cleaned up 1 old jobs''],
       Inr (ex_store2\<lparr>jobs := []\<rparr>))"
  unfolding cleanup_jobs_periodically_def
  by (simp add: ex_round1 ex_round2 del: string_of_nat.simps add: string_of_nat_1)

lemma snd_mark_running:
  "snd (mark_running jid cn now s) = snd (update_job jid (Some RUNNING) None None now s)"
  by (simp add: mark_running_def case_prod_beta)

lemma snd_record_outcome:
  "snd (record_outcome jid out now s) =
     (case out of
        Inr res \<Rightarrow> snd (update_job jid (Some DONE) (Some res) None now s)
      | Inl e \<Rightarrow> snd (update_job jid (Some FAILED) None (Some EXECUTION_ERROR) now s))"
  by (simp add: record_outcome_def case_prod_beta split: sum.splits)

lemma lookup_update_cases:
  assumes "store_ok s"
  shows "lookup (snd (update_job jid st res err now s)) k =
     (if k = jid then
        (case lookup s jid of None \<Rightarrow> None
         | Some j \<Rightarrow> Some (j\<lparr>status := (case st of None \<Rightarrow> status j | Some v \<Rightarrow> v),
              result := (case res of None \<Rightarrow> result j | Some v \<Rightarrow> Some v),
              error := (case err of None \<Rightarrow> error j | Some v \<Rightarrow> Some v),
              updated_at := now\<rparr>))
      else lookup s k)"
proof (cases "k = jid")
  case False
  with assms show ?thesis by (simp add: lookup_update_other)
next
  case True
  show ?thesis
  proof (cases "lookup s jid")
    case None
    with True show ?thesis by (simp add: lookup_update_none)
  next
    case (Some j)
    with True assms show ?thesis by (simp add: lookup_update_same)
  qed
qed

lemma sys_inv_init: "sys_inv system_init"
  by (simp add: sys_inv_def system_init_def job_store_def store_ok_def lookup_def get_job_def
      JobStore_init_def)

lemma sys_invD:
  "sys_inv \<sigma> \<Longrightarrow> lookup (store \<sigma>) jid = Some j \<Longrightarrow>
   \<exists>p. threads \<sigma> jid = Some p \<and> job_matches p j"
  by (simp add: sys_inv_def)

lemma sys_inv_step:
  assumes "sys_inv \<sigma>" "step run \<sigma> \<sigma>'"
  shows "sys_inv \<sigma>'"
  using assms(2)
proof (cases rule: step.cases)
  case (submit jid tc tu trace crew_name)
  have ok: "store_ok (store \<sigma>)" using assms(1) by (simp add: sys_inv_def)
  show ?thesis
    using assms(1) submit sys_invD[OF assms(1), of jid]
    by (auto simp: sys_inv_def store_ok_create lookup_create[OF ok] split: if_splits)
next
  case (start jid crew_name now)
  have ok: "store_ok (store \<sigma>)" using assms(1) by (simp add: sys_inv_def)
  show ?thesis
    using assms(1) start sys_invD[OF assms(1), of jid]
    by (auto simp: sys_inv_def snd_mark_running store_ok_update lookup_update_cases[OF ok]
        split: if_splits option.splits)
next
  case (finish jid crew_name payload meta trace now)
  have ok: "store_ok (store \<sigma>)" using assms(1) by (simp add: sys_inv_def)
  show ?thesis
    using assms(1) finish sys_invD[OF assms(1), of jid]
    by (auto simp: sys_inv_def snd_record_outcome store_ok_update lookup_update_cases[OF ok]
        split: if_splits option.splits sum.splits)
next
  case (sweep now)
  have ok: "store_ok (store \<sigma>)" using assms(1) by (simp add: sys_inv_def)
  show ?thesis
    using assms(1) sweep
    by (auto simp: sys_inv_def store_ok_cleanup lookup_cleanup[OF ok] split: option.splits if_splits)
qed

lemma reachable_inv: "reachable run \<sigma> \<Longrightarrow> sys_inv \<sigma>"
  by (induction rule: reachable.induct) (auto intro: sys_inv_init sys_inv_step)

lemma forward_refl: "forward a a"
  by (cases a) simp_all

lemma ex_sys1_reachable: "reachable run ex_sys1"
proof -
  have "threads system_init ''job-a'' = None" by (simp add: system_init_def)
  then have "step run system_init ex_sys1" unfolding ex_sys1_def by (rule step.submit)
  with reachable.init show ?thesis by (rule reachable.next_step)
qed

lemma ex_sys2_step: "step run ex_sys1 ex_sys2"
proof -
  have "threads ex_sys1 ''job-a'' = Some Spawned" by (simp add: ex_sys1_def)
  then show ?thesis unfolding ex_sys2_def by (rule step.start)
qed

lemma ex_sys2_reachable: "reachable run ex_sys2"
  using ex_sys1_reachable ex_sys2_step by (rule reachable.next_step)

lemma ex_sys3_step: "step ex_run_ok ex_sys2 ex_sys3"
proof -
  have "threads ex_sys2 ''job-a'' = Some Started" by (simp add: ex_sys2_def)
  then show ?thesis unfolding ex_sys3_def by (rule step.finish)
qed

lemma ex_sys3_reachable: "reachable ex_run_ok ex_sys3"
  using ex_sys2_reachable ex_sys3_step by (rule reachable.next_step)

lemma ex_sys2_store: "store ex_sys2 = \<lparr>heap = [ex_job_running], jobs = [(''job-a'', 0)], ttl_seconds = 3600\<rparr>"
  by (simp add: ex_sys2_def ex_sys1_def system_init_def job_store_def JobStore_init_def
      create_job_def mark_running_def update_job_def ex_job_running_def)

lemma ex_sys3_store: "store ex_sys3 = \<lparr>heap = [ex_job_done], jobs = [(''job-a'', 0)], ttl_seconds = 3600\<rparr>"
  by (simp add: ex_sys3_def ex_sys2_store record_outcome_def invoke_crew_def CREW_MAP_def
      ex_run_ok_def update_job_def ex_job_done_def ex_job_running_def)

lemma ex_sys2_lookup: "lookup (store ex_sys2) ''job-a'' = Some ex_job_running"
  by (simp add: ex_sys2_store lookup_def get_job_def deref_def)

lemma ex_sys3_lookup: "lookup (store ex_sys3) ''job-a'' = Some ex_job_done"
  by (simp add: ex_sys3_store lookup_def get_job_def deref_def)

section \<open>The claims\<close>

text \<open>
  Claim C1, counterexample. C1 says that an update of a Done or Failed job is rejected
  or is a no-op. \<^verbatim>\<open>update_job\<close> has no such guard: on a job whose status is
  \<open>DONE\<close>, an update with \<open>status = RUNNING\<close> finds the job and sets it back to
  \<open>RUNNING\<close>.
\<close>

theorem update_job_reverts_terminal_status:
  "status (deref ex_done 0) = DONE
   \<and> fst (update_job ''job-a'' (Some RUNNING) None None 200 ex_done) = Some 0
   \<and> status (deref (snd (update_job ''job-a'' (Some RUNNING) None None 200 ex_done)) 0) = RUNNING"
  by (simp add: ex_done_eq update_job_def deref_def)

text \<open>
  Claim C1, as amended. The store overwrites the status with whatever is supplied;
  forward movement comes from the callers. In every step of the running system (a
  submission, either step of a dispatcher thread, a sweep), taken from a reachable
  state, the status of a job that is in the store before and after stays the same or
  moves one arrow forward along Queued, Running, then Done or Failed; in particular a
  Done or Failed status stays.
\<close>

theorem status_moves_forward:
  assumes "reachable run \<sigma>" and "step run \<sigma> \<sigma>'"
    and "lookup (store \<sigma>) jid = Some j" and "lookup (store \<sigma>') jid = Some j'"
  shows "forward (status j) (status j')"
proof -
  from assms(1) have inv: "sys_inv \<sigma>" by (rule reachable_inv)
  then have ok: "store_ok (store \<sigma>)" by (simp add: sys_inv_def)
  from inv assms(3) obtain p where p: "threads \<sigma> jid = Some p" "job_matches p j"
    by (auto simp: sys_inv_def)
  from assms(2) show ?thesis
  proof (cases rule: step.cases)
    case (submit jid0 tc tu trace crew_name)
    with p assms(3,4) show ?thesis
      by (auto simp: lookup_create[OF ok] forward_refl split: if_splits)
  next
    case (start jid0 crew_name now)
    with p assms(3,4) show ?thesis
      by (auto simp: snd_mark_running lookup_update_cases[OF ok] forward_refl split: if_splits)
  next
    case (finish jid0 crew_name payload meta trace now)
    with p assms(3,4) show ?thesis
      by (auto simp: snd_record_outcome lookup_update_cases[OF ok] forward_refl
          split: if_splits sum.splits)
  next
    case (sweep now)
    with assms(3,4) show ?thesis
      by (auto simp: lookup_cleanup[OF ok] forward_refl split: if_splits)
  qed
qed

text \<open>
  Claim C1, witness: the step that records the outcome of job \<open>job-a\<close> moves it from
  \<open>RUNNING\<close> to \<open>DONE\<close>.
\<close>

theorem status_moves_forward_witness:
  "reachable ex_run_ok ex_sys2 \<and> step ex_run_ok ex_sys2 ex_sys3
   \<and> lookup (store ex_sys2) ''job-a'' = Some ex_job_running
   \<and> lookup (store ex_sys3) ''job-a'' = Some ex_job_done
   \<and> forward (status ex_job_running) (status ex_job_done)"
  using status_moves_forward[OF ex_sys2_reachable ex_sys3_step ex_sys2_lookup ex_sys3_lookup]
    ex_sys2_reachable ex_sys3_step ex_sys2_lookup ex_sys3_lookup
  by simp

text \<open>
  Claim C2, counterexample. C2 says that changing the value returned by \<^verbatim>\<open>get_job\<close>
  does not change the record the store holds. \<^verbatim>\<open>get_job\<close> returns the reference the
  dict holds, so assigning \<open>DONE\<close> to the status of the returned object changes the
  record found under the id, with no store operation in between.
\<close>

theorem caller_mutation_reaches_store:
  "get_job ''job-a'' ex_store1 = Some 0
   \<and> lookup (assign_status 0 DONE ex_store1) ''job-a'' \<noteq> lookup ex_store1 ''job-a''"
  by (simp add: ex_store1_eq get_job_def lookup_def deref_def assign_status_def)

text \<open>
  Claim C2, as amended. \<^verbatim>\<open>create_job\<close> and \<^verbatim>\<open>get_job\<close> return the reference to the
  Job object that the store holds, not a copy: the reference returned by
  \<^verbatim>\<open>create_job\<close> is the one \<^verbatim>\<open>get_job\<close> returns afterwards, and a field assignment
  through a reference obtained from \<^verbatim>\<open>get_job\<close> is seen in the record the store
  holds under that id. (\<^verbatim>\<open>get_job\<close> itself does not change the store: it is a function of
  the state alone.)
\<close>

theorem get_job_aliases_store:
  "get_job jid (snd (create_job jid tc tu trace cn s)) = Some (fst (create_job jid tc tu trace cn s))
   \<and> (store_ok s \<and> get_job jid s = Some r \<longrightarrow>
        get_job jid (assign_status r v s) = Some r
        \<and> deref (assign_status r v s) r = (deref s r)\<lparr>status := v\<rparr>
        \<and> lookup (assign_status r v s) jid = Some ((deref s r)\<lparr>status := v\<rparr>))"
proof (intro conjI impI)
  show "get_job jid (snd (create_job jid tc tu trace cn s)) = Some (fst (create_job jid tc tu trace cn s))"
    by (rule get_job_create_same)
next
  assume a: "store_ok s \<and> get_job jid s = Some r"
  then have r: "r < length (heap s)" by (blast intro: store_ok_ref)
  from a show "get_job jid (assign_status r v s) = Some r"
    by (simp add: assign_status_def get_job_def)
  from r show "deref (assign_status r v s) r = (deref s r)\<lparr>status := v\<rparr>"
    by (simp add: assign_status_def deref_def)
  from a r show "lookup (assign_status r v s) jid = Some ((deref s r)\<lparr>status := v\<rparr>)"
    by (simp add: assign_status_def deref_def lookup_def get_job_def)
qed

text \<open>
  Claim C2, witness: in the store holding \<open>job-a\<close>, assigning \<open>FAILED\<close> through the
  reference of \<open>job-a\<close> changes the stored record.
\<close>

theorem get_job_aliases_store_witness:
  "store_ok ex_store1 \<and> get_job ''job-a'' ex_store1 = Some 0
   \<and> lookup (assign_status 0 FAILED ex_store1) ''job-a'' = Some ((deref ex_store1 0)\<lparr>status := FAILED\<rparr>)"
  using get_job_aliases_store[of "''job-a''" 100 101 "''trace-a''" "''marketing''" ex_store1 0 FAILED] ex_store1_ok
  by (simp add: ex_store1_eq get_job_def)

text \<open>
  Claim C3, counterexample. C3 says that the work unit is not invoked when the job id is
  missing from the store. \<^verbatim>\<open>_run_crew_job\<close> drops the result of the Running mark and
  goes on: with an empty store, the crew is invoked.
\<close>

theorem missing_job_still_runs_crew:
  "get_job ''job-gone'' job_store = None
   \<and> Invoked MarketingCrew \<in> set (fst (run_crew_job ex_run_ok ''job-gone'' ''marketing'' [] None ''trace-a'' 10 20 job_store))"
  by (simp add: job_store_def JobStore_init_def get_job_def run_crew_job_def mark_running_def
      invoke_crew_def record_outcome_def CREW_MAP_def ex_run_ok_def update_job_def)

text \<open>
  Claim C3, as amended. When the job id is missing from the store, \<^verbatim>\<open>_run_crew_job\<close>
  returns normally and leaves the store unchanged (both updates are not-found no-ops),
  but it does not abort: for a known crew name it logs the start, invokes the work unit
  once and logs its outcome.
\<close>

theorem run_crew_job_missing_job:
  "get_job jid s = None \<Longrightarrow>
   snd (run_crew_job run jid cn payload meta trace t1 t2 s) = s
   \<and> (\<forall>c. map_of CREW_MAP cn = Some c \<longrightarrow>
        fst (run_crew_job run jid cn payload meta trace t1 t2 s) =
          [LogInfo (''Job '' @ jid @ '' started for crew: '' @ cn), Invoked c,
           (case run c payload meta trace of
              Inr res \<Rightarrow> LogInfo (''Job '' @ jid @ '' completed successfully'')
            | Inl e \<Rightarrow> LogError (''Job '' @ jid @ '' failed: '' @ type_name e))])"
  by (auto simp: run_crew_job_def mark_running_def invoke_crew_def record_outcome_def
      update_job_unknown split: sum.splits option.splits prod.splits)

text \<open>
  Claim C3, witness: a run for the missing id \<open>job-gone\<close> with a failing work unit.
\<close>

theorem run_crew_job_missing_job_witness:
  "get_job ''job-gone'' job_store = None \<and> map_of CREW_MAP ''support'' = Some SupportCrew
   \<and> run_crew_job ex_run_fatal ''job-gone'' ''support'' [] None ''trace-a'' 10 20 job_store =
       ([LogInfo ''Job job-gone started for crew: support'', Invoked SupportCrew,
         LogError ''Job job-gone failed: AuthenticationError''], job_store)"
proof -
  have g: "get_job ''job-gone'' job_store = None"
    by (simp add: job_store_def JobStore_init_def get_job_def)
  have m: "map_of CREW_MAP ''support'' = Some SupportCrew" by (simp add: CREW_MAP_def)
  from run_crew_job_missing_job[OF g, of ex_run_fatal "''support''" "[]" None "''trace-a''" 10 20] g m
  show ?thesis by (simp add: ex_run_fatal_def prod_eq_iff)
qed

text \<open>
  Claim C4, counterexample. C4 says that a failing sweep is logged and the loop goes on.
  The loop has no handler: with a sweep that raises, three rounds of the loop end in
  the first round with that exception, after the first sleep and with no log line.
\<close>

theorem reaper_stops_on_failing_sweep:
  "periodic_loop ex_sweep_fail ex_clock 0 3 [] job_store =
     ([Sleep 300], Inl (Exc (Class ''RuntimeError'' [Exception]) ''sweep failed''))"
  unfolding periodic_loop_3 by (simp add: ex_sweep_fail_def)

text \<open>
  Claim C4, as amended. The reaper loop with the store's own sweep, which never raises,
  is still running after any number \<open>n\<close> of rounds and has slept \<open>n\<close> times. The loop
  does not handle a failure: were a sweep to raise in some round, the loop would end in
  that round with that exception, and nothing would be logged for it.
\<close>

theorem reaper_loop_behaviour:
  "(\<exists>s'. snd (cleanup_jobs_periodically clock n s) = Inr s')
   \<and> count_list (fst (cleanup_jobs_periodically clock n s)) (Sleep 300) = n
   \<and> (sweep (clock k) s0 = Inl e \<longrightarrow>
        periodic_loop sweep clock k (Suc n) evs s0 = (evs @ [Sleep 300], Inl e))"
  using reaper_runs[of clock 0 n "[]" s] reaper_sleeps[of clock 0 n "[]" s]
  by (simp add: cleanup_jobs_periodically_def)

text \<open>
  Claim C4, witness: a raising sweep ends the loop; two rounds over a store with two old
  jobs remove one job each and leave the loop running.
\<close>

theorem reaper_loop_behaviour_witness:
  "ex_sweep_fail (ex_clock 0) job_store = Inl (Exc (Class ''RuntimeError'' [Exception]) ''sweep failed'')
   \<and> periodic_loop ex_sweep_fail ex_clock 0 (Suc 2) [] job_store =
      ([] @ [Sleep 300], Inl (Exc (Class ''RuntimeError'' [Exception]) ''sweep failed''))
   \<and> cleanup_jobs_periodically ex_clock (Suc (Suc 0)) ex_store2 =
      ([Sleep 300, LogInfo ''Cleaned up 1 old jobs'', Sleep 300, LogInfo ''Cleaned up 1 old jobs''],
       Inr (ex_store2\<lparr>jobs := []\<rparr>))"
proof -
  have a: "ex_sweep_fail (ex_clock 0) job_store = Inl (Exc (Class ''RuntimeError'' [Exception]) ''sweep failed'')"
    by (simp add: ex_sweep_fail_def)
  note c = reaper_loop_behaviour[where sweep = ex_sweep_fail and clock = ex_clock and k = 0 and ?s0.0 = job_store
      and e = "Exc (Class ''RuntimeError'' [Exception]) ''sweep failed''" and n = 2 and evs = "[]"
      and s = ex_store2]
  from c a have "periodic_loop ex_sweep_fail ex_clock 0 (Suc 2) [] job_store =
      ([] @ [Sleep 300], Inl (Exc (Class ''RuntimeError'' [Exception]) ''sweep failed''))"
    by blast
  with a ex_reaper show ?thesis by blast
qed

text \<open>
  Claim C5. When the job is in the store and the execution fails (the crew raises, or the
  crew name is unknown), the record after \<^verbatim>\<open>_run_crew_job\<close> is the record before with
  status \<open>FAILED\<close>, the fixed pair of code \<open>EXECUTION_ERROR\<close> and the fixed message
  as its error, and the new \<open>updated_at\<close>; and the whole store is the same for any two
  failures, whatever the exceptions, crews and payloads were.
\<close>

theorem failed_job_error_is_fixed:
  assumes "store_ok s" and "lookup s jid = Some j"
    and "snd (invoke_crew run cn payload meta trace) = Inl e"
    and "snd (invoke_crew run' cn' payload' meta' trace') = Inl e'"
  shows "lookup (snd (run_crew_job run jid cn payload meta trace t1 t2 s)) jid =
           Some (j\<lparr>status := FAILED,
                   error := Some [(''code'', ''EXECUTION_ERROR''),
                                  (''message'', ''An error occurred during crew execution'')],
                   updated_at := t2\<rparr>)
       \<and> snd (run_crew_job run jid cn payload meta trace t1 t2 s) =
         snd (run_crew_job run' jid cn' payload' meta' trace' t1 t2 s)"
proof -
  let ?s1 = "snd (mark_running jid cn t1 s)"
  have s1: "?s1 = snd (update_job jid (Some RUNNING) None None t1 s)"
    by (simp add: mark_running_def split: prod.splits)
  have ok1: "store_ok ?s1" unfolding s1 using assms(1) by (rule store_ok_update)
  have l1: "lookup ?s1 jid = Some (j\<lparr>status := RUNNING, updated_at := t1\<rparr>)"
    unfolding s1 using lookup_update_same[OF assms(1,2), of "Some RUNNING" None None t1] by simp
  have fin: "\<And>r c p m t x. snd (invoke_crew r c p m t) = Inl x \<Longrightarrow>
      snd (run_crew_job r jid c p m t t1 t2 s) =
      snd (update_job jid (Some FAILED) None (Some EXECUTION_ERROR) t2 (snd (update_job jid (Some RUNNING) None None t1 s)))"
    by (simp add: run_crew_job_def record_outcome_def mark_running_def case_prod_beta Let_def)
  have "lookup (snd (update_job jid (Some FAILED) None (Some EXECUTION_ERROR) t2 ?s1)) jid =
     Some (j\<lparr>status := FAILED, error := Some EXECUTION_ERROR, updated_at := t2\<rparr>)"
    using lookup_update_same[OF ok1 l1, of "Some FAILED" None "Some EXECUTION_ERROR" t2] by simp
  then show ?thesis
    using fin[OF assms(3)] fin[OF assms(4)] by (simp add: s1 EXECUTION_ERROR_def)
qed

text \<open>
  Claim C5, witness: an exhausted retry on a timeout and a provider's authentication
  error leave the same store, with the fixed error pair.
\<close>

theorem failed_job_error_is_fixed_witness:
  "store_ok ex_store1
   \<and> lookup ex_store1 ''job-a'' = Some (deref ex_store1 0)
   \<and> snd (invoke_crew ex_run_timeout ''marketing'' [] None ''trace-a'') =
        Inl (RetryError (Exc TimeoutError ''provider timed out''))
   \<and> snd (invoke_crew ex_run_fatal ''support'' [] None ''trace-a'') =
        Inl (Exc (Class ''AuthenticationError'' [Exception]) ''invalid key sk-123'')
   \<and> lookup (snd (run_crew_job ex_run_timeout ''job-a'' ''marketing'' [] None ''trace-a'' 110 120 ex_store1)) ''job-a'' =
        Some ((deref ex_store1 0)\<lparr>status := FAILED,
                error := Some [(''code'', ''EXECUTION_ERROR''),
                               (''message'', ''An error occurred during crew execution'')],
                updated_at := 120\<rparr>)
   \<and> snd (run_crew_job ex_run_timeout ''job-a'' ''marketing'' [] None ''trace-a'' 110 120 ex_store1) =
     snd (run_crew_job ex_run_fatal ''job-a'' ''support'' [] None ''trace-a'' 110 120 ex_store1)"
proof -
  have l: "lookup ex_store1 ''job-a'' = Some (deref ex_store1 0)"
    by (simp add: lookup_def get_job_def ex_store1_eq)
  have a: "snd (invoke_crew ex_run_timeout ''marketing'' [] None ''trace-a'') =
        Inl (RetryError (Exc TimeoutError ''provider timed out''))"
    by (simp add: invoke_crew_def CREW_MAP_def ex_run_timeout_def)
  have b: "snd (invoke_crew ex_run_fatal ''support'' [] None ''trace-a'') =
        Inl (Exc (Class ''AuthenticationError'' [Exception]) ''invalid key sk-123'')"
    by (simp add: invoke_crew_def CREW_MAP_def ex_run_fatal_def)
  note c = failed_job_error_is_fixed[OF ex_store1_ok l a b, of 110 120]
  from ex_store1_ok l a b c show ?thesis by blast
qed

text \<open>
  Claim C6. \<^verbatim>\<open>_execute_crew\<close> under its retry decorator calls \<^verbatim>\<open>crew.kickoff()\<close> once
  or twice; it calls it twice exactly when the first call fails with an instance of
  \<^verbatim>\<open>TimeoutError\<close> or \<^verbatim>\<open>ConnectionError\<close> (of any subclass, as
  \<^verbatim>\<open>isinstance\<close> has it); any other failure of the first call is
  raised as it is after that one call; a transient failure followed by a result gives
  the result after two calls (and one wait of 2 seconds); a transient failure followed
  by any failure gives a failure after two calls.
\<close>

theorem retry_policy_attempts:
  "1 \<le> fst (snd (execute_crew kickoff)) \<and> fst (snd (execute_crew kickoff)) \<le> 2
   \<and> (fst (snd (execute_crew kickoff)) = 2 \<longleftrightarrow>
        (\<exists>x. kickoff 1 = Inl x \<and> retry_if_exception_type x))
   \<and> (kickoff 1 = Inl e \<and> \<not> retry_if_exception_type e \<longrightarrow>
         execute_crew kickoff = (Inl e, 1, []))
   \<and> (kickoff 1 = Inl e1 \<and> retry_if_exception_type e1 \<and> kickoff 2 = Inr v \<longrightarrow>
         execute_crew kickoff = (Inr (output_text v), 2, [2]))
   \<and> (kickoff 1 = Inl e1 \<and> retry_if_exception_type e1 \<and> kickoff 2 = Inl e2 \<longrightarrow>
         fst (snd (execute_crew kickoff)) = 2 \<and> (\<exists>x. fst (execute_crew kickoff) = Inl x))"
  by (auto simp: execute_crew_unfold split: sum.splits)

text \<open>
  Claim C6, witness: a crew with invalid input, a crew that times out once, a crew whose
  connection is closed once by the remote end (a library's subclass of
  \<^verbatim>\<open>ConnectionError\<close>), and a crew whose provider is down.
\<close>

theorem retry_policy_attempts_witness:
  "ex_kickoff_invalid 1 = Inl (Exc ValueError ''bad input'')
   \<and> \<not> retry_if_exception_type (Exc ValueError ''bad input'')
   \<and> execute_crew ex_kickoff_invalid = (Inl (Exc ValueError ''bad input''), 1, [])
   \<and> ex_kickoff_flaky 1 = Inl (Exc TimeoutError ''timed out'')
   \<and> retry_if_exception_type (Exc TimeoutError ''timed out'')
   \<and> ex_kickoff_flaky 2 = Inr (CrewOutput ''ok'')
   \<and> execute_crew ex_kickoff_flaky = (Inr ''ok'', 2, [2])
   \<and> ex_kickoff_remote 1 = Inl (Exc RemoteDisconnected ''Remote end closed connection'')
   \<and> retry_if_exception_type (Exc RemoteDisconnected ''Remote end closed connection'')
   \<and> ex_kickoff_remote 2 = Inr (CrewOutput ''ok'')
   \<and> execute_crew ex_kickoff_remote = (Inr ''ok'', 2, [2])
   \<and> ex_kickoff_down 1 = Inl (Exc ConnectionError ''connection refused'')
   \<and> ex_kickoff_down 2 = Inl (Exc ConnectionError ''connection refused'')
   \<and> retry_if_exception_type (Exc ConnectionError ''connection refused'')
   \<and> fst (snd (execute_crew ex_kickoff_down)) = 2
   \<and> (\<exists>x. fst (execute_crew ex_kickoff_down) = Inl x)"
proof -
  have i: "ex_kickoff_invalid 1 = Inl (Exc ValueError ''bad input'')"
    by (simp add: ex_kickoff_invalid_def)
  have f1: "ex_kickoff_flaky 1 = Inl (Exc TimeoutError ''timed out'')"
    and f2: "ex_kickoff_flaky 2 = Inr (CrewOutput ''ok'')"
    by (simp_all add: ex_kickoff_flaky_def)
  have r1: "ex_kickoff_remote 1 = Inl (Exc RemoteDisconnected ''Remote end closed connection'')"
    and r2: "ex_kickoff_remote 2 = Inr (CrewOutput ''ok'')"
    by (simp_all add: ex_kickoff_remote_def)
  have d1: "ex_kickoff_down 1 = Inl (Exc ConnectionError ''connection refused'')"
    and d2: "ex_kickoff_down 2 = Inl (Exc ConnectionError ''connection refused'')"
    by (simp_all add: ex_kickoff_down_def)
  note nv = ValueError_not_transient[of "''bad input''"]
  note tr = RemoteDisconnected_transient[of "''Remote end closed connection''"]
  note a = retry_policy_attempts[where kickoff = ex_kickoff_invalid and e = "Exc ValueError ''bad input''"]
  note b = retry_policy_attempts[where kickoff = ex_kickoff_flaky and ?e1.0 = "Exc TimeoutError ''timed out''"
      and v = "CrewOutput ''ok''"]
  note c = retry_policy_attempts[where kickoff = ex_kickoff_down and ?e1.0 = "Exc ConnectionError ''connection refused''"
      and ?e2.0 = "Exc ConnectionError ''connection refused''"]
  note d = retry_policy_attempts[where kickoff = ex_kickoff_remote
      and ?e1.0 = "Exc RemoteDisconnected ''Remote end closed connection''" and v = "CrewOutput ''ok''"]
  from a i nv have 1: "execute_crew ex_kickoff_invalid = (Inl (Exc ValueError ''bad input''), 1, [])"
    by blast
  from b f1 f2 have 2: "execute_crew ex_kickoff_flaky = (Inr ''ok'', 2, [2])"
    by simp
  from c d1 d2 have 3: "fst (snd (execute_crew ex_kickoff_down)) = 2 \<and> (\<exists>x. fst (execute_crew ex_kickoff_down) = Inl x)"
    by simp
  from d r1 r2 tr have 4: "execute_crew ex_kickoff_remote = (Inr ''ok'', 2, [2])"
    by simp
  from 1 2 3 4 i f1 f2 r1 r2 d1 d2 nv tr show ?thesis by simp
qed

text \<open>
  Claim C7, counterexample. C7 says that the failure of the final attempt itself, not a
  wrapper, reaches the caller. The decorator is used with its default
  \<^verbatim>\<open>reraise=False\<close>: when both attempts fail with \<^verbatim>\<open>ConnectionError\<close>, the caller
  gets a \<^verbatim>\<open>RetryError\<close> that wraps it.
\<close>

theorem retry_exhausted_raises_wrapper:
  "ex_kickoff_down (fst (snd (execute_crew ex_kickoff_down))) = Inl (Exc ConnectionError ''connection refused'')
   \<and> fst (execute_crew ex_kickoff_down) \<noteq> Inl (Exc ConnectionError ''connection refused'')
   \<and> fst (execute_crew ex_kickoff_down) = Inl (RetryError (Exc ConnectionError ''connection refused''))"
  by (simp add: execute_crew_unfold ex_kickoff_down_def)

text \<open>
  Claim C7, as amended. When the final attempt fails, a failure reaches the caller: the
  attempt's own exception when it is not an instance of \<^verbatim>\<open>TimeoutError\<close> or
  \<^verbatim>\<open>ConnectionError\<close> (subclasses included),
  and otherwise (the attempts are used up) a \<^verbatim>\<open>RetryError\<close> wrapping it.
\<close>

theorem retry_final_failure:
  "kickoff (fst (snd (execute_crew kickoff))) = Inl e \<Longrightarrow>
   fst (execute_crew kickoff) = Inl (if retry_if_exception_type e then RetryError e else e)"
  by (auto simp: execute_crew_unfold split: sum.splits if_splits)

text \<open>
  Claim C7, witness: a \<^verbatim>\<open>ValueError\<close> is raised as it is; a repeated
  \<^verbatim>\<open>ConnectionError\<close>, and a repeated failure of a library's subclass of it, are
  wrapped.
\<close>

theorem retry_final_failure_witness:
  "ex_kickoff_invalid (fst (snd (execute_crew ex_kickoff_invalid))) = Inl (Exc ValueError ''bad input'')
   \<and> fst (execute_crew ex_kickoff_invalid) = Inl (Exc ValueError ''bad input'')
   \<and> ex_kickoff_down (fst (snd (execute_crew ex_kickoff_down))) = Inl (Exc ConnectionError ''connection refused'')
   \<and> fst (execute_crew ex_kickoff_down) = Inl (RetryError (Exc ConnectionError ''connection refused''))
   \<and> ex_kickoff_remote_down (fst (snd (execute_crew ex_kickoff_remote_down))) =
        Inl (Exc RemoteDisconnected ''Remote end closed connection'')
   \<and> execute_crew ex_kickoff_remote_down =
        (Inl (RetryError (Exc RemoteDisconnected ''Remote end closed connection'')), 2, [2])"
proof -
  have a: "ex_kickoff_invalid (fst (snd (execute_crew ex_kickoff_invalid))) = Inl (Exc ValueError ''bad input'')"
    by (simp add: ex_kickoff_invalid_def)
  have b: "ex_kickoff_down (fst (snd (execute_crew ex_kickoff_down))) = Inl (Exc ConnectionError ''connection refused'')"
    by (simp add: ex_kickoff_down_def)
  have c: "ex_kickoff_remote_down (fst (snd (execute_crew ex_kickoff_remote_down))) =
        Inl (Exc RemoteDisconnected ''Remote end closed connection'')"
    by (simp add: ex_kickoff_remote_down_def)
  have n: "fst (snd (execute_crew ex_kickoff_remote_down)) = 2"
    and sl: "snd (snd (execute_crew ex_kickoff_remote_down)) = [2]"
    by (simp_all add: execute_crew_unfold ex_kickoff_remote_down_def RemoteDisconnected_def)
  note nv = ValueError_not_transient[of "''bad input''"]
  note tr = RemoteDisconnected_transient[of "''Remote end closed connection''"]
  from retry_final_failure[of ex_kickoff_invalid "Exc ValueError ''bad input''", OF a]
       retry_final_failure[of ex_kickoff_down "Exc ConnectionError ''connection refused''", OF b]
       retry_final_failure[of ex_kickoff_remote_down
         "Exc RemoteDisconnected ''Remote end closed connection''", OF c] a b c n sl nv tr
  show ?thesis by (simp add: prod_eq_iff)
qed

text \<open>
  Claim C8. In every state reachable by submissions, dispatcher steps and sweeps, a
  record whose status is \<open>DONE\<close> has a result and no error, and a record whose status is
  \<open>FAILED\<close> has an error and no result.
\<close>

theorem terminal_result_xor_error:
  assumes "reachable run \<sigma>" and "lookup (store \<sigma>) jid = Some j"
  shows "(status j = DONE \<longrightarrow> result j \<noteq> None \<and> error j = None)
       \<and> (status j = FAILED \<longrightarrow> error j \<noteq> None \<and> result j = None)"
proof -
  from assms(1) have "sys_inv \<sigma>" by (rule reachable_inv)
  with assms(2) obtain p where "job_matches p j" by (auto simp: sys_inv_def)
  then show ?thesis by (cases p) auto
qed

text \<open>
  Claim C8, witness: after submission, Running mark and a successful run, \<open>job-a\<close> is
  \<open>DONE\<close> with a result and no error.
\<close>

theorem terminal_result_xor_error_witness:
  "reachable ex_run_ok ex_sys3 \<and> lookup (store ex_sys3) ''job-a'' = Some ex_job_done
   \<and> status ex_job_done = DONE \<and> result ex_job_done \<noteq> None \<and> error ex_job_done = None"
proof -
  have d: "status ex_job_done = DONE" by (simp add: ex_job_done_def)
  from terminal_result_xor_error[OF ex_sys3_reachable ex_sys3_lookup] d ex_sys3_reachable ex_sys3_lookup
  show ?thesis by simp
qed

text \<open>
  Claim C9, counterexample. C9 says that a second sweep right after the first, with no
  new jobs, returns 0. Each call of \<^verbatim>\<open>cleanup_old_jobs\<close> reads the clock anew: in a
  store with ttl 3600 and a job created at 4000, a sweep at 7600 keeps that job (4000 is
  not below the cutoff 4000) and a second sweep one microsecond later removes it and
  returns 1.
\<close>

theorem second_sweep_after_clock_advance:
  "store_ok ex_store2
   \<and> cleanup_old_jobs 7600 ex_store2 = (1, ex_store2\<lparr>jobs := [(''job-b'', 1)]\<rparr>)
   \<and> fst (cleanup_old_jobs (7600 + 1 / 1000000) (snd (cleanup_old_jobs 7600 ex_store2))) = 1"
proof -
  have b: "cleanup_old_jobs 7600 ex_store2 = (1, ex_store2\<lparr>jobs := [(''job-b'', 1)]\<rparr>)"
    by (simp add: ex_store2_eq cleanup_old_jobs_def old_job_ids_def)
  have c: "fst (cleanup_old_jobs (7600 + 1 / 1000000) (ex_store2\<lparr>jobs := [(''job-b'', 1)]\<rparr>)) = 1"
    by (simp add: ex_store2_eq cleanup_old_jobs_def old_job_ids_def)
  from b c ex_store2_ok show ?thesis by simp
qed

text \<open>
  Claim C9, as amended. For every well-formed store and clock reading \<open>now\<close>,
  \<^verbatim>\<open>cleanup_old_jobs\<close> keeps exactly the entries whose \<open>created_at\<close> is not below
  \<open>now - ttl_seconds\<close>, in their order, whatever their status, and touches no Job
  object; it returns the number of entries removed. A second sweep, at its own clock
  reading \<open>now2\<close>, returns the number of entries that the first sweep kept and whose
  \<open>created_at\<close> is below \<open>now2 - ttl_seconds\<close>; it returns 0 and changes nothing when
  the clock has not advanced between the two readings.
\<close>

theorem cleanup_removes_exactly_expired:
  assumes "store_ok s"
  shows "jobs (snd (cleanup_old_jobs now s)) =
           filter (\<lambda>(jid, r). \<not> created_at (deref s r) < now - of_int (ttl_seconds s)) (jobs s)
       \<and> heap (snd (cleanup_old_jobs now s)) = heap s
       \<and> (\<forall>jid. lookup (snd (cleanup_old_jobs now s)) jid =
            (case lookup s jid of None \<Rightarrow> None
             | Some j \<Rightarrow> if created_at j < now - of_int (ttl_seconds s) then None else Some j))
       \<and> fst (cleanup_old_jobs now s) =
            length (filter (\<lambda>(jid, r). created_at (deref s r) < now - of_int (ttl_seconds s)) (jobs s))
       \<and> fst (cleanup_old_jobs now s) + length (jobs (snd (cleanup_old_jobs now s))) = length (jobs s)
       \<and> fst (cleanup_old_jobs now2 (snd (cleanup_old_jobs now s))) =
            length (filter (\<lambda>(jid, r). \<not> created_at (deref s r) < now - of_int (ttl_seconds s)
                                      \<and> created_at (deref s r) < now2 - of_int (ttl_seconds s))
                           (jobs s))
       \<and> (now2 \<le> now \<longrightarrow>
            cleanup_old_jobs now2 (snd (cleanup_old_jobs now s)) = (0, snd (cleanup_old_jobs now s)))"
proof (intro conjI allI impI)
  show "jobs (snd (cleanup_old_jobs now s)) =
           filter (\<lambda>(jid, r). \<not> created_at (deref s r) < now - of_int (ttl_seconds s)) (jobs s)"
    using cleanup_jobs[OF assms] by (simp add: deref_def)
  show "heap (snd (cleanup_old_jobs now s)) = heap s" by (rule cleanup_heap)
  show "fst (cleanup_old_jobs now s) =
            length (filter (\<lambda>(jid, r). created_at (deref s r) < now - of_int (ttl_seconds s)) (jobs s))"
    by (simp add: cleanup_fst deref_def)
  show "fst (cleanup_old_jobs now s) + length (jobs (snd (cleanup_old_jobs now s))) = length (jobs s)"
    using sum_length_filter_compl[of "\<lambda>(jid, r). created_at (heap s ! r) < now - of_int (ttl_seconds s)" "jobs s"]
    by (simp add: cleanup_fst cleanup_jobs[OF assms] case_prod_unfold)
  show "fst (cleanup_old_jobs now2 (snd (cleanup_old_jobs now s))) =
            length (filter (\<lambda>(jid, r). \<not> created_at (deref s r) < now - of_int (ttl_seconds s)
                                      \<and> created_at (deref s r) < now2 - of_int (ttl_seconds s))
                           (jobs s))"
    using cleanup_later_sweep[OF assms, of now2 now] by (simp add: deref_def)
next
  assume "now2 \<le> now"
  with assms show "cleanup_old_jobs now2 (snd (cleanup_old_jobs now s)) =
      (0, snd (cleanup_old_jobs now s))"
    by (rule cleanup_not_later_sweep)
next
  fix jid
  show "lookup (snd (cleanup_old_jobs now s)) jid =
            (case lookup s jid of None \<Rightarrow> None
             | Some j \<Rightarrow> if created_at j < now - of_int (ttl_seconds s) then None else Some j)"
    using assms by (rule lookup_cleanup)
qed

text \<open>
  Claim C9, witness: a store with a Queued job created at 100 and a Running job created
  at 4000, ttl 3600. At 7601 both are removed, at 7600 only the first; a second sweep at
  the same reading 7600 removes nothing.
\<close>

theorem cleanup_removes_exactly_expired_witness:
  "store_ok ex_store2 \<and> (7600::real) \<le> 7600
   \<and> cleanup_old_jobs 7601 ex_store2 = (2, ex_store2\<lparr>jobs := []\<rparr>)
   \<and> cleanup_old_jobs 7600 ex_store2 = (1, ex_store2\<lparr>jobs := [(''job-b'', 1)]\<rparr>)
   \<and> cleanup_old_jobs 7600 (snd (cleanup_old_jobs 7600 ex_store2)) =
       (0, snd (cleanup_old_jobs 7600 ex_store2))"
proof -
  have a: "cleanup_old_jobs 7601 ex_store2 = (2, ex_store2\<lparr>jobs := []\<rparr>)"
    by (simp add: ex_store2_eq cleanup_old_jobs_def old_job_ids_def)
  have b: "cleanup_old_jobs 7600 ex_store2 = (1, ex_store2\<lparr>jobs := [(''job-b'', 1)]\<rparr>)"
    by (simp add: ex_store2_eq cleanup_old_jobs_def old_job_ids_def)
  have c: "cleanup_old_jobs 7600 (snd (cleanup_old_jobs 7600 ex_store2)) =
       (0, snd (cleanup_old_jobs 7600 ex_store2))"
    using cleanup_removes_exactly_expired[OF ex_store2_ok, of 7600 7600] by blast
  from a b c ex_store2_ok show ?thesis by simp
qed

text \<open>
  Claim C10. On a well-formed store, \<^verbatim>\<open>update_job\<close> for a known id returns the job's
  reference, whose object is the old one with exactly the supplied fields replaced and
  \<open>updated_at\<close> set to the clock reading (an omitted field keeps its value, and the
  id, trace id, crew and \<open>created_at\<close> are never touched); the dict, the ttl and the
  record of every other id stay as they were. For an unknown id it returns not-found
  and the same store.
\<close>

theorem update_job_frame:
  assumes "store_ok s"
  shows "(get_job jid s = Some r \<longrightarrow>
            fst (update_job jid st res err now s) = Some r
          \<and> jobs (snd (update_job jid st res err now s)) = jobs s
          \<and> ttl_seconds (snd (update_job jid st res err now s)) = ttl_seconds s
          \<and> deref (snd (update_job jid st res err now s)) r =
              (deref s r)\<lparr>status := (case st of None \<Rightarrow> status (deref s r) | Some v \<Rightarrow> v),
                          result := (case res of None \<Rightarrow> result (deref s r) | Some v \<Rightarrow> Some v),
                          error := (case err of None \<Rightarrow> error (deref s r) | Some v \<Rightarrow> Some v),
                          updated_at := now\<rparr>
          \<and> (\<forall>k. k \<noteq> jid \<longrightarrow> lookup (snd (update_job jid st res err now s)) k = lookup s k))
       \<and> (get_job jid s = None \<longrightarrow> update_job jid st res err now s = (None, s))"
proof (intro conjI impI allI)
  assume g: "get_job jid s = Some r"
  with assms have r: "r < length (heap s)" by (rule store_ok_ref)
  let ?s' = "snd (update_job jid st res err now s)"
  from g show "fst (update_job jid st res err now s) = Some r"
    by (simp add: update_job_known)
  from g show "jobs ?s' = jobs s" by (simp add: update_job_known)
  from g show "ttl_seconds ?s' = ttl_seconds s" by (simp add: update_job_known)
  from g r show "deref ?s' r =
              (deref s r)\<lparr>status := (case st of None \<Rightarrow> status (deref s r) | Some v \<Rightarrow> v),
                          result := (case res of None \<Rightarrow> result (deref s r) | Some v \<Rightarrow> Some v),
                          error := (case err of None \<Rightarrow> error (deref s r) | Some v \<Rightarrow> Some v),
                          updated_at := now\<rparr>"
    by (simp add: update_job_known deref_def split: option.splits)
  fix k assume "k \<noteq> jid"
  with assms show "lookup ?s' k = lookup s k" by (rule lookup_update_other)
next
  assume "get_job jid s = None"
  then show "update_job jid st res err now s = (None, s)" by (rule update_job_unknown)
qed

text \<open>
  Claim C10, witness: on a Done job, an update of the status alone keeps the result; an
  update of an unknown id changes nothing.
\<close>

theorem update_job_frame_witness:
  "store_ok ex_done \<and> get_job ''job-a'' ex_done = Some 0
   \<and> fst (update_job ''job-a'' (Some FAILED) None None 160 ex_done) = Some 0
   \<and> deref (snd (update_job ''job-a'' (Some FAILED) None None 160 ex_done)) 0 =
       (deref ex_done 0)\<lparr>status := FAILED, updated_at := 160\<rparr>
   \<and> result (deref (snd (update_job ''job-a'' (Some FAILED) None None 160 ex_done)) 0) = Some ex_result
   \<and> get_job ''job-z'' ex_done = None
   \<and> update_job ''job-z'' (Some FAILED) None None 160 ex_done = (None, ex_done)"
proof -
  have g: "get_job ''job-a'' ex_done = Some 0" and n: "get_job ''job-z'' ex_done = None"
    by (simp_all add: ex_done_eq get_job_def)
  have d: "result (deref ex_done 0) = Some ex_result"
    by (simp add: ex_done_eq deref_def)
  from update_job_frame[OF ex_done_ok, of "''job-a''" 0 "Some FAILED" None None 160]
       update_job_frame[OF ex_done_ok, of "''job-z''" 0 "Some FAILED" None None 160] g n d ex_done_ok
  show ?thesis by simp
qed

end
